theory Spec2Isabelle
  imports Main "HOL-Library.Char_ord" "HOL-Library.List_Lexorder"
begin

section \<open>Countdown timer (scripts/tabManager.js, the runtime.onMessage listener)\<close>

subsection \<open>JavaScript numbers as the timer uses them\<close>

text \<open>
  \<^verbatim>\<open>Date.now()\<close> is an integral number of milliseconds and the handler only adds and
  subtracts, so a number is an integer or \<^verbatim>\<open>NaN\<close>. A key that is absent from storage
  reads as \<^verbatim>\<open>undefined\<close>, which arithmetic converts to \<^verbatim>\<open>NaN\<close>.
\<close>

datatype jsnum = Num int | NaN

fun js_add :: "jsnum \<Rightarrow> jsnum \<Rightarrow> jsnum" where
  "js_add (Num a) (Num b) = Num (a + b)"
| "js_add _ _ = NaN"

fun js_sub :: "jsnum \<Rightarrow> jsnum \<Rightarrow> jsnum" where
  "js_sub (Num a) (Num b) = Num (a - b)"
| "js_sub _ _ = NaN"

fun ToNumber :: "jsnum option \<Rightarrow> jsnum" where
  "ToNumber None = NaN"
| "ToNumber (Some v) = v"

subsection \<open>State and messages\<close>

text \<open>
  The alarms registered with \<^verbatim>\<open>chrome.alarms\<close> (name to firing time) and the two keys
  of \<^verbatim>\<open>chrome.storage.local\<close> the listener touches.
\<close>

record timer_state =
  alarms :: "string \<rightharpoonup> jsnum"
  StartingTime :: "jsnum option"
  RemainingTime :: "jsnum option"

datatype message =
    START_TIMER jsnum
  | PAUSE_TIMER
  | CONTINUE_TIMER
  | OTHER_MESSAGE string

text \<open>
  One delivery of a message, with the storage callback it starts run to completion.
  \<open>now1\<close> and \<open>now2\<close> are the values of the first and the second \<^verbatim>\<open>Date.now()\<close>
  the branch evaluates (PAUSE evaluates only one).
\<close>

fun onMessage :: "message \<Rightarrow> int \<Rightarrow> int \<Rightarrow> timer_state \<Rightarrow> timer_state" where
  "onMessage (START_TIMER duration) now1 now2 st =
     st\<lparr>alarms := (alarms st)(''LockedInSession'' \<mapsto> js_add (Num now1) duration),
        StartingTime := Some (Num now2)\<rparr>"
| "onMessage PAUSE_TIMER now1 now2 st =
     (let cleared = (alarms st)(''LockedInSession'' := None);
          elapsedTime = js_sub (Num now1) (ToNumber (StartingTime st))
      in st\<lparr>alarms := cleared,
            RemainingTime := Some (js_sub (ToNumber (RemainingTime st)) elapsedTime)\<rparr>)"
| "onMessage CONTINUE_TIMER now1 now2 st =
     st\<lparr>alarms := (alarms st)(''LockedInSession'' \<mapsto> js_add (Num now1) (ToNumber (RemainingTime st))),
        StartingTime := Some (Num now2)\<rparr>"
| "onMessage (OTHER_MESSAGE t) now1 now2 st = st"

type_synonym delivery = "message \<times> int \<times> int"

fun run :: "delivery list \<Rightarrow> timer_state \<Rightarrow> timer_state" where
  "run [] st = st"
| "run ((m, now1, now2) # ds) st = run ds (onMessage m now1 now2 st)"

text \<open>Storage and alarms of a freshly installed extension.\<close>

definition fresh_timer :: timer_state where
  "fresh_timer = \<lparr>alarms = Map.empty, StartingTime = None, RemainingTime = None\<rparr>"

text \<open>The stored remaining time is a number and not negative.\<close>

fun remaining_nonneg :: "timer_state \<Rightarrow> bool" where
  "remaining_nonneg st = (case RemainingTime st of Some (Num r) \<Rightarrow> 0 \<le> r | _ \<Rightarrow> False)"

text \<open>A PAUSE read at \<open>now\<close> comes no later than the conceptual expiry of the countdown.\<close>

fun pause_in_time :: "timer_state \<Rightarrow> int \<Rightarrow> bool" where
  "pause_in_time st now =
     (case (StartingTime st, RemainingTime st) of
        (Some (Num s), Some (Num r)) \<Rightarrow> now - s \<le> r
      | _ \<Rightarrow> False)"

fun timely :: "delivery list \<Rightarrow> timer_state \<Rightarrow> bool" where
  "timely [] st = True"
| "timely ((m, now1, now2) # ds) st =
     ((m \<noteq> PAUSE_TIMER \<or> pause_in_time st now1) \<and> timely ds (onMessage m now1 now2 st))"

section \<open>Host interfaces used by the tab manager and the lock page\<close>

text \<open>
  What the scripts call but do not define is a parameter of the model: the
  \<^verbatim>\<open>URL\<close> constructor (\<open>None\<close> when it throws a TypeError),
  \<^verbatim>\<open>encodeURIComponent\<close> and \<^verbatim>\<open>chrome.runtime.getURL\<close>.
\<close>

record URL =
  protocol :: string
  hostname :: string

record web_api =
  new_URL :: "string \<Rightarrow> URL option"
  encodeURIComponent :: "string \<Rightarrow> string"
  getURL :: "string \<Rightarrow> string"

datatype js_error = TypeError | ApiError string

text \<open>
  The tab-group calls act on the browser's own state \<open>'w\<close>; each returns the resolved
  value or the rejection, and the state it leaves behind.
\<close>

record 'w tab_api =
  tabGroups_query :: "string \<Rightarrow> nat \<Rightarrow> 'w \<Rightarrow> (js_error + nat list) \<times> 'w"
  tabs_group :: "nat list \<Rightarrow> nat option \<Rightarrow> 'w \<Rightarrow> (js_error + nat) \<times> 'w"
  tabGroups_update :: "nat \<Rightarrow> string \<Rightarrow> string \<Rightarrow> 'w \<Rightarrow> (js_error + unit) \<times> 'w"

record tab =
  tab_id :: nat
  windowId :: nat
  url :: "string option"
  title :: "string option"

record tab_info =
  info_url :: string
  info_title :: "string option"

text \<open>
  The storage keys: \<^verbatim>\<open>distractingDomains\<close> and \<^verbatim>\<open>distractingTabs\<close> in
  \<^verbatim>\<open>chrome.storage.sync\<close>, the \<^verbatim>\<open>unlocked_<domain>\<close> flags of
  \<^verbatim>\<open>chrome.storage.session\<close>, and \<^verbatim>\<open>unlockPin\<close> in \<^verbatim>\<open>chrome.storage.local\<close>.
  \<open>None\<close> is a key that was never written.
\<close>

record stores =
  distractingDomains :: "string list option"
  distractingTabs :: "tab_info list option"
  session :: "string \<rightharpoonup> bool"
  unlockPin :: "string option"

section \<open>Tab grouping and the registry (scripts/tabManager.js)\<close>

record group_info =
  TITLE :: string
  COLOR :: string

definition DISTRACTING :: group_info where
  "DISTRACTING = \<lparr>TITLE = ''Distracting'', COLOR = ''red''\<rparr>"

definition PRODUCTIVE :: group_info where
  "PRODUCTIVE = \<lparr>TITLE = ''Productive'', COLOR = ''green''\<rparr>"

text \<open>\<^verbatim>\<open>String.prototype.startsWith\<close>.\<close>

definition startsWith :: "string \<Rightarrow> string \<Rightarrow> bool" where
  "startsWith s p = (take (length p) s = p)"

text \<open>\<^verbatim>\<open>result[storageKey] || []\<close>: an array, even an empty one, is truthy.\<close>

fun or_empty :: "'a list option \<Rightarrow> 'a list" where
  "or_empty None = []"
| "or_empty (Some xs) = xs"

text \<open>
  In the guard \<^verbatim>\<open>!urlString || !urlString.startsWith('http')\<close> an absent and an
  empty string are falsy. \<^verbatim>\<open>domains.sort()\<close> orders strings by their code units; on
  the ASCII host names that \<^verbatim>\<open>URL.hostname\<close> yields this is the lexicographic order
  of \<open>char list\<close>. The storage callback is run to completion.
\<close>

fun saveDomainAsDistracting :: "web_api \<Rightarrow> string option \<Rightarrow> stores \<Rightarrow> js_error + stores" where
  "saveDomainAsDistracting api None s = Inr s"
| "saveDomainAsDistracting api (Some urlString) s =
     (if urlString = [] \<or> \<not> startsWith urlString ''http'' then Inr s
      else case new_URL api urlString of
             None \<Rightarrow> Inl TypeError
           | Some u \<Rightarrow>
               (let domain = hostname u;
                    domains = or_empty (distractingDomains s)
                in if domain \<notin> set domains
                   then Inr (s\<lparr>distractingDomains := Some (sort (domains @ [domain]))\<rparr>)
                   else Inr s))"

fun deleteDomainFromDistracting :: "string \<Rightarrow> stores \<Rightarrow> stores" where
  "deleteDomainFromDistracting domain s =
     s\<lparr>distractingDomains := Some (filter (\<lambda>d. d \<noteq> domain) (or_empty (distractingDomains s)))\<rparr>"

fun isDomainDistracting :: "string \<Rightarrow> stores \<Rightarrow> bool" where
  "isDomainDistracting domain s = (domain \<in> set (or_empty (distractingDomains s)))"

fun saveTabAsDistracting :: "tab \<Rightarrow> stores \<Rightarrow> stores" where
  "saveTabAsDistracting t s =
     (case url t of
        None \<Rightarrow> s
      | Some tabUrl \<Rightarrow>
          (if tabUrl = [] \<or> \<not> startsWith tabUrl ''http'' then s
           else (let newTabInfo = \<lparr>info_url = tabUrl, info_title = title t\<rparr>;
                     tabs = or_empty (distractingTabs s);
                     isAlreadySaved =
                       list_ex (\<lambda>savedTab. info_url savedTab = info_url newTabInfo) tabs
                 in if \<not> isAlreadySaved
                    then s\<lparr>distractingTabs := Some (tabs @ [newTabInfo])\<rparr>
                    else s)))"

fun deleteTabFromDistracting :: "tab \<Rightarrow> stores \<Rightarrow> stores" where
  "deleteTabFromDistracting t s =
     s\<lparr>distractingTabs :=
         Some (filter (\<lambda>savedTab. Some (info_url savedTab) \<noteq> url t) (or_empty (distractingTabs s)))\<rparr>"

text \<open>
  The first half of \<^verbatim>\<open>groupTab\<close>'s try block: reuse the first group with the title in
  the tab's window, or make one from the tab and label it.
\<close>

fun resolve_group :: "'w tab_api \<Rightarrow> tab \<Rightarrow> group_info \<Rightarrow> 'w \<Rightarrow> (js_error + nat) \<times> 'w" where
  "resolve_group g t groupInfo w =
     (case tabGroups_query g (TITLE groupInfo) (windowId t) w of
        (Inl e, w1) \<Rightarrow> (Inl e, w1)
      | (Inr existingGroups, w1) \<Rightarrow>
          (case existingGroups of
             first # _ \<Rightarrow> (Inr first, w1)
           | [] \<Rightarrow>
               (case tabs_group g [tab_id t] None w1 of
                  (Inl e, w2) \<Rightarrow> (Inl e, w2)
                | (Inr newGroupId, w2) \<Rightarrow>
                    (case tabGroups_update g newGroupId (TITLE groupInfo) (COLOR groupInfo) w2 of
                       (Inl e, w3) \<Rightarrow> (Inl e, w3)
                     | (Inr _, w3) \<Rightarrow> (Inr newGroupId, w3)))))"

text \<open>
  \<^verbatim>\<open>groupTab\<close>. The result is the error the catch clause logged, if any, the browser
  state and the stores. An exception anywhere in the try block, also the TypeError of
  \<^verbatim>\<open>new URL\<close> inside \<^verbatim>\<open>saveDomainAsDistracting\<close>, skips what follows it. The
  two save functions write different keys, so the order of their callbacks does not matter.
\<close>

fun groupTab ::
  "'w tab_api \<Rightarrow> web_api \<Rightarrow> tab \<Rightarrow> bool \<Rightarrow> 'w \<times> stores \<Rightarrow> js_error option \<times> 'w \<times> stores" where
  "groupTab g api t isProductive (w, s) =
     (let groupInfo = (if isProductive then PRODUCTIVE else DISTRACTING)
      in case resolve_group g t groupInfo w of
           (Inl e, w1) \<Rightarrow> (Some e, w1, s)
         | (Inr groupId, w1) \<Rightarrow>
             (case tabs_group g [tab_id t] (Some groupId) w1 of
                (Inl e, w2) \<Rightarrow> (Some e, w2, s)
              | (Inr _, w2) \<Rightarrow>
                  (if \<not> isProductive
                   then (case saveDomainAsDistracting api (url t) s of
                           Inl e \<Rightarrow> (Some e, w2, s)
                         | Inr s1 \<Rightarrow> (None, w2, saveTabAsDistracting t s1))
                   else (None, w2, s))))"

section \<open>Lock gate (scripts/tabManager.js, the tabs.onActivated listener)\<close>

text \<open>
  The listener changes no store; its result is the \<^verbatim>\<open>chrome.tabs.update\<close> call it
  issues, if any, as the tab id and the new location.
\<close>

fun onActivated :: "web_api \<Rightarrow> tab \<Rightarrow> stores \<Rightarrow> js_error + (nat \<times> string) option" where
  "onActivated api t s =
     (case url t of
        None \<Rightarrow> Inr None
      | Some tabUrl \<Rightarrow>
          (if tabUrl = [] then Inr None
           else case new_URL api tabUrl of
                  None \<Rightarrow> Inl TypeError
                | Some u \<Rightarrow>
                    (let domain = hostname u
                     in if protocol u = ''chrome-extension:'' then Inr None
                        else if \<not> isDomainDistracting domain s then Inr None
                        else if session s (''unlocked_'' @ domain) = Some True then Inr None
                        else Inr (Some (tab_id t,
                               getURL api ''html/locked.html'' @ ''?url='' @ encodeURIComponent api tabUrl)))))"

section \<open>Unlock flow (the lock page's script)\<close>

text \<open>
  The page: the value of the PIN field, the text of the error element and the
  navigation the script requested by assigning \<^verbatim>\<open>window.location.href\<close>.
\<close>

record lock_page =
  pin_input :: string
  error_message :: string
  navigated :: "string option"

text \<open>
  \<^verbatim>\<open>urlParams.get('url')\<close> is \<^verbatim>\<open>null\<close> when the parameter is missing, and the
  \<^verbatim>\<open>URL\<close> constructor then sees the string \<^verbatim>\<open>"null"\<close>.
\<close>

fun url_argument :: "string option \<Rightarrow> string" where
  "url_argument None = ''null''"
| "url_argument (Some t) = t"

fun unlock_click ::
  "web_api \<Rightarrow> string option \<Rightarrow> lock_page \<times> stores \<Rightarrow> js_error + lock_page \<times> stores" where
  "unlock_click api targetUrl (page, s) =
     (let enteredPin = pin_input page
      in if Some enteredPin = unlockPin s
         then (case new_URL api (url_argument targetUrl) of
                 None \<Rightarrow> Inl TypeError
               | Some u \<Rightarrow>
                   (let domain = hostname u;
                        sessionKey = ''unlocked_'' @ domain
                    in Inr (page\<lparr>navigated := targetUrl\<rparr>,
                            s\<lparr>session := (session s)(sessionKey \<mapsto> True)\<rparr>)))
         else Inr (page\<lparr>error_message := ''Incorrect PIN. Please try again.'', pin_input := ''''\<rparr>, s))"

text \<open>The user types a PIN into the field and presses the button.\<close>

fun attempt ::
  "web_api \<Rightarrow> string option \<Rightarrow> string \<Rightarrow> lock_page \<times> stores \<Rightarrow> js_error + lock_page \<times> stores" where
  "attempt api targetUrl pin (page, s) = unlock_click api targetUrl (page\<lparr>pin_input := pin\<rparr>, s)"

text \<open>
  Attempts one after another on the same page. An uncaught exception of the handler
  leaves the page as typed; once the page has navigated away its script runs no more.
\<close>

fun attempts ::
  "web_api \<Rightarrow> string option \<Rightarrow> string list \<Rightarrow> lock_page \<times> stores \<Rightarrow> lock_page \<times> stores" where
  "attempts api targetUrl [] ps = ps"
| "attempts api targetUrl (pin # pins) (page, s) =
     (if navigated page \<noteq> None then (page, s)
      else case attempt api targetUrl pin (page, s) of
             Inl e \<Rightarrow> attempts api targetUrl pins (page\<lparr>pin_input := pin\<rparr>, s)
           | Inr ps' \<Rightarrow> attempts api targetUrl pins ps')"

section \<open>Task list (scripts/pages/task.js)\<close>

record subtask =
  sub_text :: string

text \<open>
  The two classes. \<^verbatim>\<open>TimedTask\<close> adds the \<^verbatim>\<open>deadline\<close> field, a string (the value
  of a date input, \<^verbatim>\<open>""\<close> by default).
\<close>

datatype task =
    Task string "subtask list"
  | TimedTask string "subtask list" string

text \<open>Reading the fields \<^verbatim>\<open>text\<close>, \<^verbatim>\<open>subtasks\<close> and \<^verbatim>\<open>deadline\<close> of an instance.\<close>

fun text_of :: "task \<Rightarrow> string" where
  "text_of (Task text subtasks) = text"
| "text_of (TimedTask text subtasks deadline) = text"

fun subtasks_of :: "task \<Rightarrow> subtask list" where
  "subtasks_of (Task text subtasks) = subtasks"
| "subtasks_of (TimedTask text subtasks deadline) = subtasks"

fun deadline_of :: "task \<Rightarrow> string option" where
  "deadline_of (Task text subtasks) = None"
| "deadline_of (TimedTask text subtasks deadline) = Some deadline"

fun is_timed :: "task \<Rightarrow> bool" where
  "is_timed (Task text subtasks) = False"
| "is_timed (TimedTask text subtasks deadline) = True"

text \<open>
  A task as \<^verbatim>\<open>chrome.storage.local\<close> holds it: a plain object with the instance's own
  fields and no class. A field an object lacks reads as \<^verbatim>\<open>undefined\<close>, here \<open>None\<close>.
\<close>

record stored_task =
  stored_text :: string
  stored_subtasks :: "subtask list option"
  stored_deadline :: "string option"

fun stored :: "task \<Rightarrow> stored_task" where
  "stored (Task text subtasks) =
     \<lparr>stored_text = text, stored_subtasks = Some subtasks, stored_deadline = None\<rparr>"
| "stored (TimedTask text subtasks deadline) =
     \<lparr>stored_text = text, stored_subtasks = Some subtasks, stored_deadline = Some deadline\<rparr>"

text \<open>The page: the module variable \<^verbatim>\<open>taskData\<close> and the storage key \<^verbatim>\<open>tasks\<close>.\<close>

record task_page =
  taskData :: "task list"
  tasks :: "stored_task list option"

fun SaveTasks :: "task_page \<Rightarrow> task_page" where
  "SaveTasks p = p\<lparr>tasks := Some (map stored (taskData p))\<rparr>"

text \<open>
  The arrow function of the restore in \<^verbatim>\<open>init\<close>; the constructors' default
  \<^verbatim>\<open>subtasks = []\<close> applies to an absent field.
\<close>

fun revive :: "stored_task \<Rightarrow> task" where
  "revive t =
     (case stored_deadline t of
        Some deadline \<Rightarrow> TimedTask (stored_text t) (or_empty (stored_subtasks t)) deadline
      | None \<Rightarrow> Task (stored_text t) (or_empty (stored_subtasks t)))"

fun restore :: "task_page \<Rightarrow> task_page" where
  "restore p = p\<lparr>taskData := map revive (or_empty (tasks p))\<rparr>"

text \<open>\<^verbatim>\<open>Array.prototype.splice(start, deleteCount)\<close> for a start that is not negative.\<close>

definition splice :: "nat \<Rightarrow> nat \<Rightarrow> 'a list \<Rightarrow> 'a list" where
  "splice start deleteCount xs = take start xs @ drop (start + deleteCount) xs"

text \<open>The click handler of the remove control rendered for index \<open>tIndex\<close>.\<close>

fun removeBtn_click :: "nat \<Rightarrow> task_page \<Rightarrow> task_page" where
  "removeBtn_click tIndex p = SaveTasks (p\<lparr>taskData := splice tIndex 1 (taskData p)\<rparr>)"

section \<open>A concrete host for running the model\<close>

text \<open>
  An instance of the host interfaces on the inputs used below: absolute URLs in
  serialised form \<^verbatim>\<open>scheme://[user@]host[:port][/path][?query][#fragment]\<close>, as the
  browser reports a tab's address, and percent-encoding of bytes.
\<close>

definition is_alpha :: "char \<Rightarrow> bool" where
  "is_alpha c = ((CHR ''a'' \<le> c \<and> c \<le> CHR ''z'') \<or> (CHR ''A'' \<le> c \<and> c \<le> CHR ''Z''))"

definition is_digit :: "char \<Rightarrow> bool" where
  "is_digit c = (CHR ''0'' \<le> c \<and> c \<le> CHR ''9'')"

definition scheme_char :: "char \<Rightarrow> bool" where
  "scheme_char c = (is_alpha c \<or> is_digit c \<or> c \<in> set ''+-.'')"

definition host_of_authority :: "string \<Rightarrow> string" where
  "host_of_authority a =
     takeWhile (\<lambda>c. c \<noteq> CHR '':'') (rev (takeWhile (\<lambda>c. c \<noteq> CHR ''@'') (rev a)))"

definition simple_URL :: "string \<Rightarrow> URL option" where
  "simple_URL s =
     (let scheme = takeWhile (\<lambda>c. c \<noteq> CHR '':'') s;
          rest = dropWhile (\<lambda>c. c \<noteq> CHR '':'') s
      in case (scheme, rest) of
           (c # cs, _ # after) \<Rightarrow>
             (if is_alpha c \<and> list_all scheme_char cs
              then Some \<lparr>protocol = scheme @ '':'',
                         hostname = (if startsWith after ''//''
                                     then host_of_authority
                                            (takeWhile (\<lambda>c. c \<notin> set ''/?#'') (drop 2 after))
                                     else '''')\<rparr>
              else None)
         | _ \<Rightarrow> None)"

definition unreserved :: "char \<Rightarrow> bool" where
  "unreserved c = (is_alpha c \<or> is_digit c \<or> c \<in> set ''-_.!~*()'' \<or> c = CHR 0x27)"

definition hex_digit :: "nat \<Rightarrow> char" where
  "hex_digit n = ''0123456789ABCDEF'' ! (n mod 16)"

definition percent_encode :: "string \<Rightarrow> string" where
  "percent_encode s =
     concat (map (\<lambda>c. if unreserved c then [c]
                       else [CHR ''%'', hex_digit (of_char c div 16), hex_digit (of_char c)]) s)"

definition extension_id :: string where
  "extension_id = ''abcdefghijklmnopabcdefghijklmnop''"

definition simple_web :: web_api where
  "simple_web =
     \<lparr>new_URL = simple_URL,
      encodeURIComponent = percent_encode,
      getURL = (\<lambda>path. ''chrome-extension://'' @ extension_id @ ''/'' @ path)\<rparr>"

text \<open>
  A browser with open tabs (id and window) and tab groups. Grouping a tab that does not
  exist, or into a group that does not exist, is rejected.
\<close>

record tab_group =
  group_id :: nat
  group_title :: string
  group_color :: string
  group_window :: nat

record browser =
  open_tabs :: "(nat \<times> nat) list"
  tab_groups :: "tab_group list"
  grouped :: "(nat \<times> nat) list"

definition fresh_group_id :: "browser \<Rightarrow> nat" where
  "fresh_group_id w = Suc (fold max (map group_id (tab_groups w)) 0)"

definition window_of :: "browser \<Rightarrow> nat \<Rightarrow> nat" where
  "window_of w i = (case map_of (open_tabs w) i of Some win \<Rightarrow> win | None \<Rightarrow> 0)"

definition put_in_group :: "nat list \<Rightarrow> nat \<Rightarrow> browser \<Rightarrow> browser" where
  "put_in_group ids gid w =
     w\<lparr>grouped := map (\<lambda>i. (i, gid)) ids @ filter (\<lambda>(i, _). i \<notin> set ids) (grouped w)\<rparr>"

definition simple_tabs_group ::
  "nat list \<Rightarrow> nat option \<Rightarrow> browser \<Rightarrow> (js_error + nat) \<times> browser" where
  "simple_tabs_group ids target w =
     (if \<not> list_all (\<lambda>i. i \<in> fst ` set (open_tabs w)) ids
      then (Inl (ApiError ''No tab with id''), w)
      else case target of
             None \<Rightarrow>
               (let gid = fresh_group_id w;
                    g = \<lparr>group_id = gid, group_title = '''', group_color = ''grey'',
                         group_window = (case ids of i # _ \<Rightarrow> window_of w i | [] \<Rightarrow> 0)\<rparr>
                in (Inr gid, put_in_group ids gid (w\<lparr>tab_groups := tab_groups w @ [g]\<rparr>)))
           | Some gid \<Rightarrow>
               (if gid \<in> group_id ` set (tab_groups w)
                then (Inr gid, put_in_group ids gid w)
                else (Inl (ApiError ''No group with id''), w)))"

definition simple_tabs :: "browser tab_api" where
  "simple_tabs =
     \<lparr>tabGroups_query = (\<lambda>ttl win w.
        (Inr (map group_id
               (filter (\<lambda>g. group_title g = ttl \<and> group_window g = win) (tab_groups w))), w)),
      tabs_group = simple_tabs_group,
      tabGroups_update = (\<lambda>gid ttl col w.
        if gid \<in> group_id ` set (tab_groups w)
        then (Inr (), w\<lparr>tab_groups :=
                 map (\<lambda>g. if group_id g = gid then g\<lparr>group_title := ttl, group_color := col\<rparr> else g)
                     (tab_groups w)\<rparr>)
        else (Inl (ApiError ''No group with id''), w))\<rparr>"

definition empty_stores :: stores where
  "empty_stores =
     \<lparr>distractingDomains = None, distractingTabs = None, session = Map.empty, unlockPin = None\<rparr>"

text \<open>Inputs for running the model.\<close>

definition tab_at :: "nat \<Rightarrow> string \<Rightarrow> tab" where
  "tab_at i u = \<lparr>tab_id = i, windowId = 1, url = Some u, title = None\<rparr>"

definition one_tab_browser :: browser where
  "one_tab_browser = \<lparr>open_tabs = [(7, 1)], tab_groups = [], grouped = []\<rparr>"

definition example_stores :: stores where
  "example_stores =
     empty_stores\<lparr>distractingDomains := Some [''example.com''], unlockPin := Some ''1234''\<rparr>"

definition blank_page :: lock_page where
  "blank_page = \<lparr>pin_input = '''', error_message = '''', navigated = None\<rparr>"

definition example_tasks :: task_page where
  "example_tasks =
     \<lparr>taskData = [Task ''write report'' [],
                  TimedTask ''pay rent'' [\<lparr>sub_text = ''bank''\<rparr>] ''2025-01-31'',
                  Task ''call home'' []],
      tasks = None\<rparr>"

section \<open>Properties of the countdown timer\<close>

lemma PAUSE_keeps_nonneg:
  assumes "pause_in_time st now1"
  shows "remaining_nonneg (onMessage PAUSE_TIMER now1 now2 st)"
proof (cases "StartingTime st")
  case None
  with assms show ?thesis by simp
next
  case (Some a)
  note start = this
  show ?thesis
  proof (cases "RemainingTime st")
    case None
    with assms start show ?thesis by (cases a) simp_all
  next
    case (Some b)
    with assms start show ?thesis by (cases a; cases b) simp_all
  qed
qed

lemma onMessage_keeps_nonneg:
  assumes "remaining_nonneg st" and "m \<noteq> PAUSE_TIMER \<or> pause_in_time st now1"
  shows "remaining_nonneg (onMessage m now1 now2 st)"
proof (cases m)
  case PAUSE_TIMER
  with assms show ?thesis using PAUSE_keeps_nonneg by blast
qed (use assms in simp_all)

lemma run_keeps_nonneg:
  "remaining_nonneg st \<Longrightarrow> timely ds st \<Longrightarrow> remaining_nonneg (run ds st)"
proof (induction ds arbitrary: st)
  case Nil
  then show ?case by simp
next
  case (Cons d ds)
  obtain m now1 now2 where d: "d = (m, now1, now2)" by (cases d)
  from Cons.prems d have "remaining_nonneg (onMessage m now1 now2 st)"
    using onMessage_keeps_nonneg by simp
  moreover from Cons.prems d have "timely ds (onMessage m now1 now2 st)" by simp
  ultimately show ?case using Cons.IH d by simp
qed

lemma timely_take: "timely ds st \<Longrightarrow> timely (take k ds) st"
proof (induction ds arbitrary: st k)
  case Nil
  then show ?case by simp
next
  case (Cons d ds)
  then show ?case by (cases k; cases d) auto
qed

text \<open>
  C1 (amended). START schedules the alarm \<^verbatim>\<open>LockedInSession\<close> at
  \<open>now + duration\<close> and stores \<open>StartingTime\<close>, and it does not write
  \<open>RemainingTime\<close>. So after START and then PAUSE the stored remaining time is
  the value \<open>r\<close> that was in storage before START minus the time elapsed between the two
  (that is \<open>r\<close> itself when no time elapses, whatever the duration was), and a
  following CONTINUE schedules the alarm at \<open>now\<close> plus that remaining time and stores
  the new \<open>StartingTime\<close>.
\<close>

theorem START_PAUSE_CONTINUE:
  assumes "RemainingTime st = Some (Num r)"
  shows "alarms (onMessage (START_TIMER (Num d)) t0 t1 st) ''LockedInSession'' = Some (Num (t0 + d))
       \<and> StartingTime (onMessage (START_TIMER (Num d)) t0 t1 st) = Some (Num t1)
       \<and> RemainingTime (onMessage (START_TIMER (Num d)) t0 t1 st) = RemainingTime st
       \<and> RemainingTime (run [(START_TIMER (Num d), t0, t1), (PAUSE_TIMER, t2, t2')] st)
           = Some (Num (r - (t2 - t1)))
       \<and> alarms (run [(START_TIMER (Num d), t0, t1), (PAUSE_TIMER, t2, t2'),
                       (CONTINUE_TIMER, t3, t3')] st) ''LockedInSession''
           = Some (Num (t3 + (r - (t2 - t1))))
       \<and> StartingTime (run [(START_TIMER (Num d), t0, t1), (PAUSE_TIMER, t2, t2'),
                             (CONTINUE_TIMER, t3, t3')] st)
           = Some (Num t3')"
  using assms by simp

theorem START_PAUSE_CONTINUE_witness:
  "RemainingTime (run [(START_TIMER (Num 5000), 1000, 1000), (PAUSE_TIMER, 1000, 1000)]
      (fresh_timer\<lparr>RemainingTime := Some (Num 5000)\<rparr>)) = Some (Num 5000)
   \<and> alarms (run [(START_TIMER (Num 5000), 1000, 1000), (PAUSE_TIMER, 1000, 1000),
                   (CONTINUE_TIMER, 4000, 4000)]
      (fresh_timer\<lparr>RemainingTime := Some (Num 5000)\<rparr>)) ''LockedInSession'' = Some (Num 9000)"
proof -
  have a: "RemainingTime (fresh_timer\<lparr>RemainingTime := Some (Num 5000)\<rparr>) = Some (Num 5000)"
    by simp
  from START_PAUSE_CONTINUE[OF a, of 5000 1000 1000 1000 1000 4000 4000]
  show ?thesis by simp
qed

text \<open>
  On a fresh installation START(5000) and an immediate PAUSE leave \<^verbatim>\<open>NaN\<close>, and with a
  remaining time of 1200 left in storage they leave 1200: in neither case 5000.
\<close>

theorem START_PAUSE_counterexample:
  "RemainingTime (run [(START_TIMER (Num 5000), 1000, 1000), (PAUSE_TIMER, 1000, 1000)] fresh_timer)
     = Some NaN
   \<and> RemainingTime (run [(START_TIMER (Num 5000), 1000, 1000), (PAUSE_TIMER, 1000, 1000)]
        (fresh_timer\<lparr>RemainingTime := Some (Num 1200)\<rparr>)) = Some (Num 1200)"
  by (simp add: fresh_timer_def)

text \<open>
  C2 (amended). START and CONTINUE never write the remaining time and PAUSE
  subtracts the elapsed time without a floor, so the remaining time stays a number that
  is not negative along every sequence of commands in which each PAUSE arrives no later
  than the conceptual expiry (\<open>now - startingTime \<le> remainingTime\<close>): it holds after
  every prefix of such a sequence.
\<close>

theorem remaining_nonneg_preserved:
  "remaining_nonneg st \<Longrightarrow> timely ds st \<Longrightarrow> remaining_nonneg (run (take k ds) st)"
  by (rule run_keeps_nonneg[OF _ timely_take])

theorem remaining_nonneg_preserved_witness:
  "remaining_nonneg (run (take 2 [(START_TIMER (Num 5000), 0, 0), (PAUSE_TIMER, 2000, 2000),
       (CONTINUE_TIMER, 2500, 2500), (PAUSE_TIMER, 5500, 5500)])
     (fresh_timer\<lparr>RemainingTime := Some (Num 5000)\<rparr>))
   \<and> remaining_nonneg (run (take 4 [(START_TIMER (Num 5000), 0, 0), (PAUSE_TIMER, 2000, 2000),
       (CONTINUE_TIMER, 2500, 2500), (PAUSE_TIMER, 5500, 5500)])
     (fresh_timer\<lparr>RemainingTime := Some (Num 5000)\<rparr>))"
proof -
  let ?st = "fresh_timer\<lparr>RemainingTime := Some (Num 5000)\<rparr>"
  let ?ds = "[(START_TIMER (Num 5000), 0, 0), (PAUSE_TIMER, 2000, 2000),
       (CONTINUE_TIMER, 2500, 2500), (PAUSE_TIMER, 5500, 5500)]"
  have a: "remaining_nonneg ?st" by (simp add: fresh_timer_def)
  have b: "timely ?ds ?st" by (simp add: fresh_timer_def)
  show ?thesis
    using remaining_nonneg_preserved[OF a b, of 2] remaining_nonneg_preserved[OF a b, of 4]
    by blast
qed

text \<open>
  With 5000 ms remaining, START at time 0 and PAUSE at time 6000 store a remaining
  time of -1000.
\<close>

theorem remaining_negative_counterexample:
  "remaining_nonneg (fresh_timer\<lparr>RemainingTime := Some (Num 5000)\<rparr>)
   \<and> RemainingTime (run [(START_TIMER (Num 5000), 0, 0), (PAUSE_TIMER, 6000, 6000)]
        (fresh_timer\<lparr>RemainingTime := Some (Num 5000)\<rparr>)) = Some (Num (- 1000))"
  by (simp add: fresh_timer_def)

text \<open>
  C5. With \<open>StartingTime\<close> and \<open>RemainingTime\<close> in storage, PAUSE clears the alarm
  \<^verbatim>\<open>LockedInSession\<close> and stores the old remaining time minus the elapsed time
  \<open>now - startingTime\<close>. There is no floor at zero: the new value is negative exactly
  when PAUSE comes after the conceptual expiry \<open>startingTime + remainingTime\<close>.
\<close>

theorem PAUSE_subtracts_elapsed:
  assumes "StartingTime st = Some (Num s)" and "RemainingTime st = Some (Num r)"
  shows "alarms (onMessage PAUSE_TIMER now now' st) = (alarms st)(''LockedInSession'' := None)
       \<and> RemainingTime (onMessage PAUSE_TIMER now now' st) = Some (Num (r - (now - s)))
       \<and> StartingTime (onMessage PAUSE_TIMER now now' st) = Some (Num s)
       \<and> (remaining_nonneg (onMessage PAUSE_TIMER now now' st) \<longleftrightarrow> now \<le> s + r)"
  using assms by auto

theorem PAUSE_subtracts_elapsed_witness:
  "alarms (onMessage PAUSE_TIMER 7000 7000
      (run [(START_TIMER (Num 5000), 1000, 1000)] (fresh_timer\<lparr>RemainingTime := Some (Num 5000)\<rparr>)))
     ''LockedInSession'' = None
   \<and> RemainingTime (onMessage PAUSE_TIMER 7000 7000
      (run [(START_TIMER (Num 5000), 1000, 1000)] (fresh_timer\<lparr>RemainingTime := Some (Num 5000)\<rparr>)))
     = Some (Num (- 1000))"
proof -
  let ?st = "run [(START_TIMER (Num 5000), 1000, 1000)] (fresh_timer\<lparr>RemainingTime := Some (Num 5000)\<rparr>)"
  have a: "StartingTime ?st = Some (Num 1000)" by (simp add: fresh_timer_def)
  have b: "RemainingTime ?st = Some (Num 5000)" by (simp add: fresh_timer_def)
  show ?thesis using PAUSE_subtracts_elapsed[OF a b, of 7000 7000] by simp
qed

section \<open>Properties of the lock gate and the unlock flow\<close>

lemma simple_URL_example:
  "simple_URL ''https://example.com/x'' = Some \<lparr>protocol = ''https:'', hostname = ''example.com''\<rparr>"
  by code_simp

lemma simple_URL_example2:
  "simple_URL ''https://example.com/other?page=2''
     = Some \<lparr>protocol = ''https:'', hostname = ''example.com''\<rparr>"
  by code_simp

lemma simple_URL_other:
  "simple_URL ''https://docs.example.org/''
     = Some \<lparr>protocol = ''https:'', hostname = ''docs.example.org''\<rparr>"
  by code_simp

lemma simple_URL_extension:
  "simple_URL ''chrome-extension://abcdefghijklmnopabcdefghijklmnop/html/options.html''
     = Some \<lparr>protocol = ''chrome-extension:'', hostname = ''abcdefghijklmnopabcdefghijklmnop''\<rparr>"
  by code_simp

lemma percent_encode_example:
  "percent_encode ''https://example.com/x'' = ''https%3A%2F%2Fexample.com%2Fx''"
  by code_simp

lemma onActivated_parsed:
  assumes "url t = Some u" and "u \<noteq> []" and "new_URL api u = Some p"
  shows "onActivated api t s =
     (if protocol p = ''chrome-extension:'' \<or> \<not> isDomainDistracting (hostname p) s
          \<or> session s (''unlocked_'' @ hostname p) = Some True
      then Inr None
      else Inr (Some (tab_id t,
             getURL api ''html/locked.html'' @ ''?url='' @ encodeURIComponent api u)))"
  using assms by (simp add: Let_def)

lemma onActivated_no_url:
  "url t = None \<or> url t = Some [] \<Longrightarrow> onActivated api t s = Inr None"
  by auto

lemma onActivated_quiet:
  assumes "url t = Some u" and "new_URL api u = Some p"
    and "protocol p = ''chrome-extension:'' \<or> \<not> isDomainDistracting (hostname p) s
          \<or> session s (''unlocked_'' @ hostname p) = Some True"
  shows "onActivated api t s = Inr None"
proof (cases "u = []")
  case True
  with assms(1) show ?thesis using onActivated_no_url by blast
next
  case False
  from onActivated_parsed[OF assms(1) False assms(2), of s] assms(3) show ?thesis by simp
qed

lemma right_attempt:
  assumes "unlockPin s = Some pin" and "new_URL api (url_argument targetUrl) = Some q"
  shows "attempt api targetUrl pin (page, s) =
     Inr (page\<lparr>pin_input := pin, navigated := targetUrl\<rparr>,
          s\<lparr>session := (session s)(''unlocked_'' @ hostname q \<mapsto> True)\<rparr>)"
  using assms by (simp add: Let_def)

lemma wrong_attempt:
  "unlockPin s \<noteq> Some pin \<Longrightarrow>
   attempt api targetUrl pin (page, s) =
     Inr (page\<lparr>pin_input := '''', error_message := ''Incorrect PIN. Please try again.''\<rparr>, s)"
  by auto

lemma wrong_attempts:
  "\<forall>pin \<in> set pins. unlockPin s \<noteq> Some pin \<Longrightarrow> navigated page = None \<Longrightarrow>
   snd (attempts api targetUrl pins (page, s)) = s
   \<and> navigated (fst (attempts api targetUrl pins (page, s))) = None"
proof (induction pins arbitrary: page)
  case Nil
  then show ?case by simp
next
  case (Cons pin pins)
  let ?page = "page\<lparr>pin_input := '''', error_message := ''Incorrect PIN. Please try again.''\<rparr>"
  from Cons.prems have w: "unlockPin s \<noteq> Some pin" by simp
  have step: "attempts api targetUrl (pin # pins) (page, s) = attempts api targetUrl pins (?page, s)"
    using Cons.prems(2) wrong_attempt[OF w, of api targetUrl page]
    by (simp del: attempt.simps)
  have "navigated ?page = None" using Cons.prems(2) by simp
  with Cons.IH[of ?page] Cons.prems(1) step show ?case by simp
qed

text \<open>
  C3 (amended). Activating a tab whose URL has a scheme other than
  \<^verbatim>\<open>chrome-extension:\<close> and a host name that is in the distracting domains, with no
  session unlock recorded for that host name, redirects the tab to the lock page
  \<^verbatim>\<open>html/locked.html\<close> with the encoded original URL as the \<^verbatim>\<open>url\<close> parameter.
  After a PIN match on a lock page whose target URL has host name \<open>d\<close>, activating any
  tab with a URL on \<open>d\<close> issues no redirect; and activating a tab on a host name that
  is not in the distracting domains issues no redirect.
\<close>

theorem lock_gate:
  "(url t = Some u \<and> u \<noteq> [] \<and> new_URL api u = Some p
      \<and> protocol p \<noteq> ''chrome-extension:''
      \<and> isDomainDistracting (hostname p) s
      \<and> session s (''unlocked_'' @ hostname p) \<noteq> Some True
    \<longrightarrow> onActivated api t s =
          Inr (Some (tab_id t,
            getURL api ''html/locked.html'' @ ''?url='' @ encodeURIComponent api u)))
   \<and> (unlockPin s = Some pin \<and> new_URL api (url_argument targetUrl) = Some q
    \<longrightarrow> (\<exists>page'.
           attempt api targetUrl pin (page, s) =
             Inr (page', s\<lparr>session := (session s)(''unlocked_'' @ hostname q \<mapsto> True)\<rparr>)
           \<and> (\<forall>t' u' p'. url t' = Some u' \<and> new_URL api u' = Some p' \<and> hostname p' = hostname q
                 \<longrightarrow> onActivated api t'
                       (s\<lparr>session := (session s)(''unlocked_'' @ hostname q \<mapsto> True)\<rparr>) = Inr None)))
   \<and> (url t = Some u \<and> new_URL api u = Some p \<and> \<not> isDomainDistracting (hostname p) s
    \<longrightarrow> onActivated api t s = Inr None)"
proof (intro conjI impI)
  assume h: "url t = Some u \<and> u \<noteq> [] \<and> new_URL api u = Some p
      \<and> protocol p \<noteq> ''chrome-extension:''
      \<and> isDomainDistracting (hostname p) s
      \<and> session s (''unlocked_'' @ hostname p) \<noteq> Some True"
  then have "url t = Some u" "u \<noteq> []" "new_URL api u = Some p" by blast+
  from onActivated_parsed[OF this, of s] h
  show "onActivated api t s =
          Inr (Some (tab_id t,
            getURL api ''html/locked.html'' @ ''?url='' @ encodeURIComponent api u))"
    by simp
next
  assume h: "unlockPin s = Some pin \<and> new_URL api (url_argument targetUrl) = Some q"
  let ?s' = "s\<lparr>session := (session s)(''unlocked_'' @ hostname q \<mapsto> True)\<rparr>"
  from h have a: "attempt api targetUrl pin (page, s) =
      Inr (page\<lparr>pin_input := pin, navigated := targetUrl\<rparr>, ?s')"
    using right_attempt by blast
  have "onActivated api t' ?s' = Inr None"
    if "url t' = Some u'" "new_URL api u' = Some p'" "hostname p' = hostname q" for t' u' p'
  proof -
    from that(3) have "session ?s' (''unlocked_'' @ hostname p') = Some True" by simp
    with onActivated_quiet[OF that(1,2), of ?s'] show ?thesis by blast
  qed
  with a show "\<exists>page'.
           attempt api targetUrl pin (page, s) = Inr (page', ?s')
           \<and> (\<forall>t' u' p'. url t' = Some u' \<and> new_URL api u' = Some p' \<and> hostname p' = hostname q
                 \<longrightarrow> onActivated api t' ?s' = Inr None)"
    by blast
next
  assume "url t = Some u \<and> new_URL api u = Some p \<and> \<not> isDomainDistracting (hostname p) s"
  then show "onActivated api t s = Inr None"
    using onActivated_quiet[of t u api p s] by blast
qed

theorem lock_gate_witness:
  "onActivated simple_web (tab_at 7 ''https://example.com/x'') example_stores
     = Inr (Some (7, ''chrome-extension://abcdefghijklmnopabcdefghijklmnop/html/locked.html?url=https%3A%2F%2Fexample.com%2Fx''))
   \<and> (\<exists>page'.
        attempt simple_web (Some ''https://example.com/x'') ''1234'' (blank_page, example_stores)
          = Inr (page', example_stores\<lparr>session := (session example_stores)(''unlocked_example.com'' \<mapsto> True)\<rparr>)
        \<and> onActivated simple_web (tab_at 8 ''https://example.com/other?page=2'')
            (example_stores\<lparr>session := (session example_stores)(''unlocked_example.com'' \<mapsto> True)\<rparr>)
          = Inr None)
   \<and> onActivated simple_web (tab_at 9 ''https://docs.example.org/'') example_stores = Inr None"
proof -
  let ?p = "\<lparr>protocol = ''https:'', hostname = ''example.com''\<rparr>"
  let ?o = "\<lparr>protocol = ''https:'', hostname = ''docs.example.org''\<rparr>"
  let ?s' = "example_stores\<lparr>session := (session example_stores)(''unlocked_example.com'' \<mapsto> True)\<rparr>"
  have key: "''unlocked_'' @ hostname ?p = ''unlocked_example.com''" by simp
  have h1: "url (tab_at 7 ''https://example.com/x'') = Some ''https://example.com/x''
      \<and> ''https://example.com/x'' \<noteq> []
      \<and> new_URL simple_web ''https://example.com/x'' = Some ?p
      \<and> protocol ?p \<noteq> ''chrome-extension:''
      \<and> isDomainDistracting (hostname ?p) example_stores
      \<and> session example_stores (''unlocked_'' @ hostname ?p) \<noteq> Some True"
    by (simp add: tab_at_def simple_web_def simple_URL_example example_stores_def empty_stores_def)
  have h2: "unlockPin example_stores = Some ''1234''
      \<and> new_URL simple_web (url_argument (Some ''https://example.com/x'')) = Some ?p"
    by (simp add: simple_web_def simple_URL_example example_stores_def empty_stores_def)
  have h3: "url (tab_at 9 ''https://docs.example.org/'') = Some ''https://docs.example.org/''
      \<and> new_URL simple_web ''https://docs.example.org/'' = Some ?o
      \<and> \<not> isDomainDistracting (hostname ?o) example_stores"
    by (simp add: tab_at_def simple_web_def simple_URL_other example_stores_def empty_stores_def)
  have t8: "url (tab_at 8 ''https://example.com/other?page=2'') = Some ''https://example.com/other?page=2''
      \<and> new_URL simple_web ''https://example.com/other?page=2'' = Some ?p
      \<and> hostname ?p = hostname ?p"
    by (simp add: tab_at_def simple_web_def simple_URL_example2)
  from lock_gate[of "tab_at 7 ''https://example.com/x''" "''https://example.com/x''" simple_web ?p
      example_stores] h1
  have "onActivated simple_web (tab_at 7 ''https://example.com/x'') example_stores
     = Inr (Some (tab_id (tab_at 7 ''https://example.com/x''),
          getURL simple_web ''html/locked.html'' @ ''?url=''
            @ encodeURIComponent simple_web ''https://example.com/x''))"
    by blast
  then have one: "onActivated simple_web (tab_at 7 ''https://example.com/x'') example_stores
     = Inr (Some (7, ''chrome-extension://abcdefghijklmnopabcdefghijklmnop/html/locked.html?url=https%3A%2F%2Fexample.com%2Fx''))"
    by (simp add: tab_at_def simple_web_def extension_id_def percent_encode_example)
  from lock_gate[of _ _ simple_web _ example_stores "''1234''" "Some ''https://example.com/x''" ?p
      blank_page] h2 t8
  have two: "\<exists>page'.
        attempt simple_web (Some ''https://example.com/x'') ''1234'' (blank_page, example_stores)
          = Inr (page', ?s')
        \<and> onActivated simple_web (tab_at 8 ''https://example.com/other?page=2'') ?s' = Inr None"
    unfolding key by blast
  from lock_gate[of "tab_at 9 ''https://docs.example.org/''" "''https://docs.example.org/''"
      simple_web ?o example_stores] h3
  have three: "onActivated simple_web (tab_at 9 ''https://docs.example.org/'') example_stores = Inr None"
    by blast
  from one two three show ?thesis by blast
qed

text \<open>
  The extension's own options page is activated while its host name, the extension id,
  is in the distracting domains and no unlock is recorded: no redirect is issued.
\<close>

theorem lock_gate_counterexample:
  "new_URL simple_web ''chrome-extension://abcdefghijklmnopabcdefghijklmnop/html/options.html''
     = Some \<lparr>protocol = ''chrome-extension:'', hostname = ''abcdefghijklmnopabcdefghijklmnop''\<rparr>
   \<and> isDomainDistracting ''abcdefghijklmnopabcdefghijklmnop''
        (empty_stores\<lparr>distractingDomains := Some [''abcdefghijklmnopabcdefghijklmnop'']\<rparr>)
   \<and> session (empty_stores\<lparr>distractingDomains := Some [''abcdefghijklmnopabcdefghijklmnop'']\<rparr>)
        (''unlocked_'' @ ''abcdefghijklmnopabcdefghijklmnop'') = None
   \<and> onActivated simple_web
        (tab_at 7 ''chrome-extension://abcdefghijklmnopabcdefghijklmnop/html/options.html'')
        (empty_stores\<lparr>distractingDomains := Some [''abcdefghijklmnopabcdefghijklmnop'']\<rparr>) = Inr None"
  by (simp add: simple_web_def simple_URL_extension empty_stores_def tab_at_def)

text \<open>
  C8. A tab whose URL has the scheme \<^verbatim>\<open>chrome-extension:\<close> is never redirected,
  whatever the stores hold.
\<close>

theorem self_pages_exempt:
  assumes "url t = Some u" and "new_URL api u = Some p" and "protocol p = ''chrome-extension:''"
  shows "onActivated api t s = Inr None"
  using onActivated_quiet[OF assms(1,2), of s] assms(3) by blast

theorem self_pages_exempt_witness:
  "onActivated simple_web
     (tab_at 3 ''chrome-extension://abcdefghijklmnopabcdefghijklmnop/html/options.html'')
     (empty_stores\<lparr>distractingDomains := Some [''abcdefghijklmnopabcdefghijklmnop'', ''example.com'']\<rparr>)
   = Inr None"
proof -
  have a: "url (tab_at 3 ''chrome-extension://abcdefghijklmnopabcdefghijklmnop/html/options.html'')
     = Some ''chrome-extension://abcdefghijklmnopabcdefghijklmnop/html/options.html''"
    by (simp add: tab_at_def)
  have b: "new_URL simple_web ''chrome-extension://abcdefghijklmnopabcdefghijklmnop/html/options.html''
     = Some \<lparr>protocol = ''chrome-extension:'', hostname = ''abcdefghijklmnopabcdefghijklmnop''\<rparr>"
    by (simp add: simple_web_def simple_URL_extension)
  have c: "protocol \<lparr>protocol = ''chrome-extension:'', hostname = ''abcdefghijklmnopabcdefghijklmnop''\<rparr>
     = ''chrome-extension:''"
    by simp
  show ?thesis by (rule self_pages_exempt[OF a b c])
qed

text \<open>
  C4. A click with the PIN field equal to the stored \<open>unlockPin\<close> sets the session flag
  \<^verbatim>\<open>unlocked_<hostname of the target URL>\<close> to true and navigates to the target URL. A
  click with any other PIN shows the error message, clears the field and leaves every
  store as it was. Nothing counts attempts: after any number of wrong PINs the right
  one still unlocks.
\<close>

theorem unlock_flow:
  "(unlockPin s = Some (pin_input page) \<and> new_URL api t = Some q \<longrightarrow>
      unlock_click api (Some t) (page, s) =
        Inr (page\<lparr>navigated := Some t\<rparr>,
             s\<lparr>session := (session s)(''unlocked_'' @ hostname q \<mapsto> True)\<rparr>))
   \<and> (unlockPin s \<noteq> Some (pin_input page) \<longrightarrow>
      unlock_click api targetUrl (page, s) =
        Inr (page\<lparr>error_message := ''Incorrect PIN. Please try again.'', pin_input := ''''\<rparr>, s))
   \<and> ((\<forall>pin \<in> set wrong. unlockPin s \<noteq> Some pin) \<and> navigated page = None
        \<and> unlockPin s = Some good \<and> new_URL api t = Some q \<longrightarrow>
      (\<exists>page'. attempt api (Some t) good (attempts api (Some t) wrong (page, s)) =
         Inr (page', s\<lparr>session := (session s)(''unlocked_'' @ hostname q \<mapsto> True)\<rparr>)
         \<and> navigated page' = Some t))"
proof (intro conjI impI)
  assume "unlockPin s = Some (pin_input page) \<and> new_URL api t = Some q"
  then show "unlock_click api (Some t) (page, s) =
        Inr (page\<lparr>navigated := Some t\<rparr>,
             s\<lparr>session := (session s)(''unlocked_'' @ hostname q \<mapsto> True)\<rparr>)"
    by (simp add: Let_def)
next
  assume "unlockPin s \<noteq> Some (pin_input page)"
  then show "unlock_click api targetUrl (page, s) =
        Inr (page\<lparr>error_message := ''Incorrect PIN. Please try again.'', pin_input := ''''\<rparr>, s)"
    by (auto simp: Let_def)
next
  assume h: "(\<forall>pin \<in> set wrong. unlockPin s \<noteq> Some pin) \<and> navigated page = None
        \<and> unlockPin s = Some good \<and> new_URL api t = Some q"
  obtain page1 s1 where ps: "attempts api (Some t) wrong (page, s) = (page1, s1)"
    by (cases "attempts api (Some t) wrong (page, s)")
  from h have "snd (attempts api (Some t) wrong (page, s)) = s"
    using wrong_attempts[of wrong s page api "Some t"] by blast
  with ps have s1: "s1 = s" by simp
  from h have "attempt api (Some t) good (page1, s) =
      Inr (page1\<lparr>pin_input := good, navigated := Some t\<rparr>,
           s\<lparr>session := (session s)(''unlocked_'' @ hostname q \<mapsto> True)\<rparr>)"
    using right_attempt[of s good api "Some t" q page1] by simp
  with ps s1 show "\<exists>page'. attempt api (Some t) good (attempts api (Some t) wrong (page, s)) =
         Inr (page', s\<lparr>session := (session s)(''unlocked_'' @ hostname q \<mapsto> True)\<rparr>)
         \<and> navigated page' = Some t"
    by simp
qed

theorem unlock_flow_witness:
  "unlock_click simple_web (Some ''https://example.com/x'')
       (blank_page\<lparr>pin_input := ''1234''\<rparr>, example_stores)
     = Inr (blank_page\<lparr>pin_input := ''1234'', navigated := Some ''https://example.com/x''\<rparr>,
            example_stores\<lparr>session := (session example_stores)(''unlocked_example.com'' \<mapsto> True)\<rparr>)
   \<and> unlock_click simple_web (Some ''https://example.com/x'')
       (blank_page\<lparr>pin_input := ''0000''\<rparr>, example_stores)
     = Inr (blank_page\<lparr>pin_input := '''', error_message := ''Incorrect PIN. Please try again.''\<rparr>,
            example_stores)
   \<and> (\<exists>page'. attempt simple_web (Some ''https://example.com/x'') ''1234''
          (attempts simple_web (Some ''https://example.com/x'') [''0000'', ''4321'', '''']
             (blank_page, example_stores))
        = Inr (page', example_stores\<lparr>session := (session example_stores)(''unlocked_example.com'' \<mapsto> True)\<rparr>)
        \<and> navigated page' = Some ''https://example.com/x'')"
proof -
  let ?q = "\<lparr>protocol = ''https:'', hostname = ''example.com''\<rparr>"
  have parse: "new_URL simple_web ''https://example.com/x'' = Some ?q"
    by (simp add: simple_web_def simple_URL_example)
  have pin: "unlockPin example_stores = Some ''1234''"
    by (simp add: example_stores_def empty_stores_def)
  have right: "unlockPin example_stores = Some (pin_input (blank_page\<lparr>pin_input := ''1234''\<rparr>))
      \<and> new_URL simple_web ''https://example.com/x'' = Some ?q"
    by (simp add: pin parse)
  have wrong: "unlockPin example_stores \<noteq> Some (pin_input (blank_page\<lparr>pin_input := ''0000''\<rparr>))"
    by (simp add: pin)
  have many: "(\<forall>pin \<in> set [''0000'', ''4321'', '''']. unlockPin example_stores \<noteq> Some pin)
      \<and> navigated blank_page = None \<and> unlockPin example_stores = Some ''1234''
      \<and> new_URL simple_web ''https://example.com/x'' = Some ?q"
    by (simp add: pin parse blank_page_def)
  have key: "''unlocked_'' @ hostname ?q = ''unlocked_example.com''" by simp
  from unlock_flow[of example_stores "blank_page\<lparr>pin_input := ''1234''\<rparr>" simple_web
      "''https://example.com/x''" ?q] right
  have one: "unlock_click simple_web (Some ''https://example.com/x'')
       (blank_page\<lparr>pin_input := ''1234''\<rparr>, example_stores)
     = Inr (blank_page\<lparr>pin_input := ''1234'', navigated := Some ''https://example.com/x''\<rparr>,
            example_stores\<lparr>session := (session example_stores)(''unlocked_example.com'' \<mapsto> True)\<rparr>)"
    unfolding key by blast
  from unlock_flow[of example_stores "blank_page\<lparr>pin_input := ''0000''\<rparr>" simple_web _ _
      "Some ''https://example.com/x''"] wrong
  have two: "unlock_click simple_web (Some ''https://example.com/x'')
       (blank_page\<lparr>pin_input := ''0000''\<rparr>, example_stores)
     = Inr (blank_page\<lparr>pin_input := '''', error_message := ''Incorrect PIN. Please try again.''\<rparr>,
            example_stores)"
    by (simp add: blank_page_def)
  from unlock_flow[of example_stores blank_page simple_web "''https://example.com/x''" ?q _
      "[''0000'', ''4321'', '''']" "''1234''"] many
  have three: "\<exists>page'. attempt simple_web (Some ''https://example.com/x'') ''1234''
          (attempts simple_web (Some ''https://example.com/x'') [''0000'', ''4321'', '''']
             (blank_page, example_stores))
        = Inr (page', example_stores\<lparr>session := (session example_stores)(''unlocked_example.com'' \<mapsto> True)\<rparr>)
        \<and> navigated page' = Some ''https://example.com/x''"
    unfolding key by blast
  from one two three show ?thesis by blast
qed

section \<open>Properties of the registry\<close>

lemma count_list_distinct: "distinct xs \<Longrightarrow> x \<in> set xs \<Longrightarrow> count_list xs x = 1"
  by (induction xs) auto

lemma saveTab_keeps_domains:
  "distractingDomains (saveTabAsDistracting t s) = distractingDomains s"
  by (simp add: Let_def split: option.splits)

lemma saveDomain_http:
  assumes "url t = Some u" and "startsWith u ''http''" and "new_URL api u = Some p"
  shows "saveDomainAsDistracting api (url t) s =
           Inr (if hostname p \<in> set (or_empty (distractingDomains s)) then s
                else s\<lparr>distractingDomains :=
                         Some (sort (or_empty (distractingDomains s) @ [hostname p]))\<rparr>)"
proof -
  from assms(2) have "u \<noteq> []" by (auto simp: startsWith_def)
  with assms show ?thesis by (simp add: Let_def)
qed

lemma saveDomain_not_http:
  "\<forall>u. v = Some u \<longrightarrow> \<not> startsWith u ''http'' \<Longrightarrow> saveDomainAsDistracting api v s = Inr s"
  by (cases v) simp_all

lemma saveTab_not_http:
  "\<forall>u. url t = Some u \<longrightarrow> \<not> startsWith u ''http'' \<Longrightarrow> saveTabAsDistracting t s = s"
  by (cases "url t") simp_all

lemma saveDomain_domains:
  "saveDomainAsDistracting api v s = Inr s1 \<Longrightarrow>
   distractingDomains s1 = distractingDomains s
   \<or> (\<exists>u p. v = Some u \<and> new_URL api u = Some p
          \<and> hostname p \<notin> set (or_empty (distractingDomains s))
          \<and> distractingDomains s1 = Some (sort (or_empty (distractingDomains s) @ [hostname p])))"
  by (cases v) (auto simp: Let_def split: if_splits option.splits)

lemma groupTab_stores:
  assumes "groupTab g api t False (w, s) = (e, w', s')"
  shows "(e \<noteq> None \<and> s' = s)
       \<or> (e = None \<and> (\<exists>s1. saveDomainAsDistracting api (url t) s = Inr s1
                              \<and> s' = saveTabAsDistracting t s1))"
  using assms
  by (simp add: Let_def split: prod.splits sum.splits
        del: saveDomainAsDistracting.simps saveTabAsDistracting.simps resolve_group.simps) auto

text \<open>
  C6 (amended). When the tab's URL starts with \<^verbatim>\<open>http\<close> and has host name
  \<open>d\<close>, and \<^verbatim>\<open>groupTab(tab, false)\<close> runs through without an exception, then \<open>d\<close> is in
  the distracting domains afterwards, a list that was sorted and free of duplicates
  still is, \<open>d\<close> occurs in it exactly once, and marking any tab on \<open>d\<close> again, whatever
  comes of it, leaves exactly one entry for \<open>d\<close>.
\<close>

theorem marking_adds_domain:
  assumes tab: "url t = Some u" "startsWith u ''http''" "new_URL api u = Some p" "hostname p = d"
    and grouped: "groupTab g api t False (w, s) = (None, w', s')"
    and inv: "sorted (or_empty (distractingDomains s))" "distinct (or_empty (distractingDomains s))"
  shows "d \<in> set (or_empty (distractingDomains s'))
       \<and> sorted (or_empty (distractingDomains s'))
       \<and> distinct (or_empty (distractingDomains s'))
       \<and> count_list (or_empty (distractingDomains s')) d = 1
       \<and> (\<forall>t2 u2 p2 w2. url t2 = Some u2 \<and> new_URL api u2 = Some p2 \<and> hostname p2 = d \<longrightarrow>
             count_list (or_empty (distractingDomains
               (snd (snd (groupTab g api t2 False (w2, s')))))) d = 1)"
proof -
  let ?ds = "or_empty (distractingDomains s)"
  from groupTab_stores[OF grouped] obtain s1 where
    s1: "saveDomainAsDistracting api (url t) s = Inr s1" and s': "s' = saveTabAsDistracting t s1"
    by auto
  from s1 saveDomain_http[OF tab(1,2,3), of s]
  have "s1 = (if hostname p \<in> set ?ds then s
              else s\<lparr>distractingDomains := Some (sort (?ds @ [hostname p]))\<rparr>)"
    by (simp only: sum.inject)
  then have s1_eq:
    "s1 = (if d \<in> set ?ds then s else s\<lparr>distractingDomains := Some (sort (?ds @ [d]))\<rparr>)"
    unfolding tab(4) .
  have reg: "or_empty (distractingDomains s') = (if d \<in> set ?ds then ?ds else sort (?ds @ [d]))"
    unfolding s' saveTab_keeps_domains s1_eq by simp
  have mem: "d \<in> set (or_empty (distractingDomains s'))" unfolding reg by simp
  have srt: "sorted (or_empty (distractingDomains s'))" unfolding reg using inv(1) by simp
  have dst: "distinct (or_empty (distractingDomains s'))" unfolding reg using inv(2) by simp
  have once: "count_list (or_empty (distractingDomains s')) d = 1"
    using count_list_distinct[OF dst mem] .
  have again: "count_list (or_empty (distractingDomains
      (snd (snd (groupTab g api t2 False (w2, s')))))) d = 1"
    if t2: "url t2 = Some u2" "new_URL api u2 = Some p2" "hostname p2 = d" for t2 u2 p2 w2
  proof -
    obtain e2 w3 s2 where r: "groupTab g api t2 False (w2, s') = (e2, w3, s2)"
      by (cases "groupTab g api t2 False (w2, s')")
    have "distractingDomains s2 = distractingDomains s'"
    proof -
      from groupTab_stores[OF r] consider "s2 = s'"
        | s3 where "saveDomainAsDistracting api (url t2) s' = Inr s3" "s2 = saveTabAsDistracting t2 s3"
        by auto
      then show ?thesis
      proof cases
        case 1
        then show ?thesis by simp
      next
        case 2
        from saveDomain_domains[OF 2(1)] t2 mem have "distractingDomains s3 = distractingDomains s'"
          by auto
        with 2(2) show ?thesis by (simp only: saveTab_keeps_domains)
      qed
    qed
    with r once show ?thesis by simp
  qed
  from mem srt dst once again show ?thesis by blast
qed

theorem marking_adds_domain_witness:
  "''example.com'' \<in> set (or_empty (distractingDomains (snd (snd
       (groupTab simple_tabs simple_web (tab_at 7 ''https://example.com/x'') False
          (one_tab_browser,
           empty_stores\<lparr>distractingDomains := Some [''a.example.org'', ''news.example.net'']\<rparr>))))))
   \<and> sorted (or_empty (distractingDomains (snd (snd
       (groupTab simple_tabs simple_web (tab_at 7 ''https://example.com/x'') False
          (one_tab_browser,
           empty_stores\<lparr>distractingDomains := Some [''a.example.org'', ''news.example.net'']\<rparr>))))))
   \<and> count_list (or_empty (distractingDomains (snd (snd
       (groupTab simple_tabs simple_web (tab_at 7 ''https://example.com/x'') False
          (snd (groupTab simple_tabs simple_web (tab_at 7 ''https://example.com/x'') False
             (one_tab_browser,
              empty_stores\<lparr>distractingDomains := Some [''a.example.org'', ''news.example.net'']\<rparr>))))))))
       ''example.com'' = 1"
proof -
  let ?t = "tab_at 7 ''https://example.com/x''"
  let ?s = "empty_stores\<lparr>distractingDomains := Some [''a.example.org'', ''news.example.net'']\<rparr>"
  let ?r = "groupTab simple_tabs simple_web ?t False (one_tab_browser, ?s)"
  let ?p = "\<lparr>protocol = ''https:'', hostname = ''example.com''\<rparr>"
  let ?w1 = "fst (snd ?r)" and ?s1 = "snd (snd ?r)"
  have tab: "url ?t = Some ''https://example.com/x''" "startsWith ''https://example.com/x'' ''http''"
    "new_URL simple_web ''https://example.com/x'' = Some ?p" "hostname ?p = ''example.com''"
    by (simp_all add: tab_at_def startsWith_def simple_web_def simple_URL_example)
  have ok: "fst ?r = None" by code_simp
  then have grouped: "?r = (None, ?w1, ?s1)"
    by (metis prod.collapse)
  have inv: "sorted (or_empty (distractingDomains ?s))" "distinct (or_empty (distractingDomains ?s))"
    by code_simp+
  note m = marking_adds_domain[OF tab grouped inv]
  from m have one: "''example.com'' \<in> set (or_empty (distractingDomains ?s1))" by blast
  from m have srt: "sorted (or_empty (distractingDomains ?s1))" by blast
  from m tab have two:
    "count_list (or_empty (distractingDomains
        (snd (snd (groupTab simple_tabs simple_web ?t False (?w1, ?s1)))))) ''example.com'' = 1"
    by blast
  from two have
    "count_list (or_empty (distractingDomains
        (snd (snd (groupTab simple_tabs simple_web ?t False (snd ?r)))))) ''example.com'' = 1"
    by (simp only: prod.collapse)
  with one srt show ?thesis by blast
qed

text \<open>
  The lock page itself is marked as distracting: the grouping succeeds, the URL is on the
  host name of the extension id, and the distracting domains do not get that host name.
\<close>

theorem marking_counterexample:
  "new_URL simple_web ''chrome-extension://abcdefghijklmnopabcdefghijklmnop/html/locked.html?url=https%3A%2F%2Fexample.com%2Fx''
     = Some \<lparr>protocol = ''chrome-extension:'', hostname = ''abcdefghijklmnopabcdefghijklmnop''\<rparr>
   \<and> fst (groupTab simple_tabs simple_web
       (tab_at 7 ''chrome-extension://abcdefghijklmnopabcdefghijklmnop/html/locked.html?url=https%3A%2F%2Fexample.com%2Fx'')
       False (one_tab_browser, empty_stores)) = None
   \<and> ''abcdefghijklmnopabcdefghijklmnop'' \<notin> set (or_empty (distractingDomains (snd (snd
       (groupTab simple_tabs simple_web
       (tab_at 7 ''chrome-extension://abcdefghijklmnopabcdefghijklmnop/html/locked.html?url=https%3A%2F%2Fexample.com%2Fx'')
       False (one_tab_browser, empty_stores))))))"
  by code_simp

text \<open>
  C10. For a tab whose URL is absent or does not start with \<^verbatim>\<open>http\<close>, both save
  functions return at their guard with the stores as they were, and
  \<^verbatim>\<open>groupTab(tab, false)\<close> leaves the stores unchanged, whatever the grouping calls do.
\<close>

theorem non_http_leaves_stores:
  assumes "\<forall>u. url t = Some u \<longrightarrow> \<not> startsWith u ''http''"
  shows "saveDomainAsDistracting api (url t) s = Inr s
       \<and> saveTabAsDistracting t s = s
       \<and> snd (snd (groupTab g api t False (w, s))) = s"
proof -
  note n = assms
  obtain e w' s' where r: "groupTab g api t False (w, s) = (e, w', s')"
    by (cases "groupTab g api t False (w, s)")
  from groupTab_stores[OF r] saveDomain_not_http[OF n, of api s] saveTab_not_http[OF n, of s]
  have "s' = s" by auto
  with r saveDomain_not_http[OF n, of api s] saveTab_not_http[OF n, of s] show ?thesis by simp
qed

theorem non_http_leaves_stores_witness:
  "snd (snd (groupTab simple_tabs simple_web (tab_at 7 ''file:///home/user/notes.html'') False
       (one_tab_browser, example_stores))) = example_stores
   \<and> snd (snd (groupTab simple_tabs simple_web
       \<lparr>tab_id = 7, windowId = 1, url = None, title = None\<rparr> False
       (one_tab_browser, example_stores))) = example_stores"
proof -
  have a: "\<forall>u. url (tab_at 7 ''file:///home/user/notes.html'') = Some u \<longrightarrow> \<not> startsWith u ''http''"
    by (simp add: tab_at_def startsWith_def)
  have b: "\<forall>u. url \<lparr>tab_id = 7, windowId = 1, url = None, title = None\<rparr> = Some u
      \<longrightarrow> \<not> startsWith u ''http''"
    by simp
  from non_http_leaves_stores[OF a, of simple_web example_stores simple_tabs one_tab_browser]
    non_http_leaves_stores[OF b, of simple_web example_stores simple_tabs one_tab_browser]
  show ?thesis by blast
qed

section \<open>Properties of the task list\<close>

lemma revive_stored: "revive (stored t) = t"
  by (cases t) simp_all

lemma splice_one_nth:
  assumes "i < length xs" and "j < length xs - 1"
  shows "splice i 1 xs ! j = xs ! (if j < i then j else Suc j)"
proof (cases "j < i")
  case True
  with assms show ?thesis by (simp add: splice_def nth_append)
next
  case False
  with assms show ?thesis by (simp add: splice_def nth_append min_def add.commute)
qed

text \<open>
  C7. Saving the task list and then restoring from what was stored, on any page (a
  fresh load starts with an empty \<^verbatim>\<open>taskData\<close>), gives the saved list back: restoring
  rebuilds \<^verbatim>\<open>taskData\<close> from the stored entries alone. It makes a stored entry with a
  \<^verbatim>\<open>deadline\<close> field a \<^verbatim>\<open>TimedTask\<close> and one without a \<^verbatim>\<open>Task\<close>, with the
  stored text, subtasks and deadline; and saving stores exactly the text, subtasks and
  deadline of each task.
\<close>

theorem tasks_round_trip:
  "taskData (restore (q\<lparr>tasks := tasks (SaveTasks p)\<rparr>)) = taskData p
   \<and> taskData (restore q) = map revive (or_empty (tasks q))
   \<and> tasks (restore q) = tasks q
   \<and> taskData (restore (SaveTasks p)) = taskData p
   \<and> tasks (SaveTasks p) = Some (map stored (taskData p))
   \<and> is_timed (revive e) = (stored_deadline e \<noteq> None)
   \<and> deadline_of (revive e) = stored_deadline e
   \<and> text_of (revive e) = stored_text e
   \<and> subtasks_of (revive e) = or_empty (stored_subtasks e)
   \<and> stored_text (stored t) = text_of t
   \<and> stored_subtasks (stored t) = Some (subtasks_of t)
   \<and> stored_deadline (stored t) = deadline_of t"
proof (intro conjI)
  show "taskData (restore (q\<lparr>tasks := tasks (SaveTasks p)\<rparr>)) = taskData p"
    by (simp add: revive_stored comp_def del: revive.simps)
  show "taskData (restore q) = map revive (or_empty (tasks q))" by simp
  show "tasks (restore q) = tasks q" by simp
  show "taskData (restore (SaveTasks p)) = taskData p"
    by (simp add: revive_stored comp_def del: revive.simps)
  show "tasks (SaveTasks p) = Some (map stored (taskData p))" by simp
  show "is_timed (revive e) = (stored_deadline e \<noteq> None)" by (cases "stored_deadline e") simp_all
  show "deadline_of (revive e) = stored_deadline e" by (cases "stored_deadline e") simp_all
  show "text_of (revive e) = stored_text e" by (cases "stored_deadline e") simp_all
  show "subtasks_of (revive e) = or_empty (stored_subtasks e)"
    by (cases "stored_deadline e") simp_all
  show "stored_text (stored t) = text_of t" by (cases t) simp_all
  show "stored_subtasks (stored t) = Some (subtasks_of t)" by (cases t) simp_all
  show "stored_deadline (stored t) = deadline_of t" by (cases t) simp_all
qed

theorem tasks_round_trip_witness:
  "taskData (restore (\<lparr>taskData = [], tasks = None\<rparr>\<lparr>tasks := tasks (SaveTasks example_tasks)\<rparr>))
     = [Task ''write report'' [],
        TimedTask ''pay rent'' [\<lparr>sub_text = ''bank''\<rparr>] ''2025-01-31'',
        Task ''call home'' []]
   \<and> tasks (SaveTasks example_tasks)
     = Some [\<lparr>stored_text = ''write report'', stored_subtasks = Some [], stored_deadline = None\<rparr>,
             \<lparr>stored_text = ''pay rent'', stored_subtasks = Some [\<lparr>sub_text = ''bank''\<rparr>],
                stored_deadline = Some ''2025-01-31''\<rparr>,
             \<lparr>stored_text = ''call home'', stored_subtasks = Some [], stored_deadline = None\<rparr>]"
proof -
  from tasks_round_trip[where q = "\<lparr>taskData = [], tasks = None\<rparr>" and p = example_tasks]
  have "taskData (restore (\<lparr>taskData = [], tasks = None\<rparr>\<lparr>tasks := tasks (SaveTasks example_tasks)\<rparr>))
          = taskData example_tasks"
    and "tasks (SaveTasks example_tasks) = Some (map stored (taskData example_tasks))"
    by blast+
  then show ?thesis by (simp add: example_tasks_def)
qed

text \<open>
  C9. Removing the task at an index \<open>i\<close> below the length \<open>n\<close> of the list takes out
  exactly that task: the new list is the tasks before \<open>i\<close> followed by the tasks after
  \<open>i\<close>, in their order, it has length \<open>n - 1\<close>, and it is what gets stored.
\<close>

theorem delete_task:
  assumes "i < length (taskData p)"
  shows "taskData (removeBtn_click i p) = take i (taskData p) @ drop (Suc i) (taskData p)
       \<and> length (taskData (removeBtn_click i p)) = length (taskData p) - 1
       \<and> (\<forall>j < length (taskData p) - 1.
             taskData (removeBtn_click i p) ! j = taskData p ! (if j < i then j else Suc j))
       \<and> tasks (removeBtn_click i p) = Some (map stored (taskData (removeBtn_click i p)))
       \<and> length (or_empty (tasks (removeBtn_click i p))) = length (taskData p) - 1"
proof -
  have td: "taskData (removeBtn_click i p) = splice i 1 (taskData p)" by simp
  have len: "length (splice i 1 (taskData p)) = length (taskData p) - 1"
    using assms by (simp add: splice_def)
  have st: "tasks (removeBtn_click i p) = Some (map stored (splice i 1 (taskData p)))" by simp
  show ?thesis
    unfolding td st using len splice_one_nth[OF assms] by (simp add: splice_def)
qed

theorem delete_task_witness:
  "taskData (removeBtn_click 1 example_tasks) = [Task ''write report'' [], Task ''call home'' []]
   \<and> tasks (removeBtn_click 1 example_tasks)
     = Some [\<lparr>stored_text = ''write report'', stored_subtasks = Some [], stored_deadline = None\<rparr>,
             \<lparr>stored_text = ''call home'', stored_subtasks = Some [], stored_deadline = None\<rparr>]"
proof -
  have a: "1 < length (taskData example_tasks)" by (simp add: example_tasks_def)
  from delete_task[OF a]
  have "taskData (removeBtn_click 1 example_tasks)
          = take 1 (taskData example_tasks) @ drop (Suc 1) (taskData example_tasks)"
    and "tasks (removeBtn_click 1 example_tasks)
          = Some (map stored (taskData (removeBtn_click 1 example_tasks)))"
    by blast+
  then show ?thesis by (simp add: example_tasks_def)
qed

end
